theory Spec2Isabelle
  imports Main
begin

section \<open>JavaScript string primitives\<close>

text \<open>
  Strings are character lists; none of the operations below depends on whether a character
  is a byte or a UTF-16 code unit. The four primitives below are the library calls of
  \<^verbatim>\<open>RBAC.hasPermission\<close>: \<^verbatim>\<open>Array.prototype.includes\<close>, \<^verbatim>\<open>String.prototype.split\<close>,
  \<^verbatim>\<open>String.prototype.endsWith\<close> and \<^verbatim>\<open>String.prototype.replace\<close> with a string pattern,
  which replaces the first occurrence only.
\<close>

definition array_includes :: "string list \<Rightarrow> string \<Rightarrow> bool" where
  "array_includes xs x = (x \<in> set xs)"

fun split_str :: "string \<Rightarrow> char \<Rightarrow> string list" where
  "split_str [] sep = [[]]"
| "split_str (c # cs) sep =
     (if c = sep then [] # split_str cs sep
      else (case split_str cs sep of
              [] \<Rightarrow> [[c]]
            | x # xs \<Rightarrow> (c # x) # xs))"

definition endsWith :: "string \<Rightarrow> string \<Rightarrow> bool" where
  "endsWith s suf = (length suf \<le> length s \<and> drop (length s - length suf) s = suf)"

fun replace_first :: "string \<Rightarrow> string \<Rightarrow> string \<Rightarrow> string" where
  "replace_first [] pat rep = (if pat = [] then rep else [])"
| "replace_first (c # cs) pat rep =
     (if take (length pat) (c # cs) = pat then rep @ drop (length pat) (c # cs)
      else c # replace_first cs pat rep)"

text \<open>
  \<^verbatim>\<open>String.prototype.trim\<close> and \<^verbatim>\<open>String.prototype.toLowerCase\<close>, which the schemas
  apply to names and emails, when a document is written and when a filter is cast. A
  character stands for a code unit below 256: among these, \<^verbatim>\<open>trim\<close> strips the six
  ASCII blanks and the no-break space U+00A0, and \<^verbatim>\<open>toLowerCase\<close> maps \<^verbatim>\<open>A\<close> to \<^verbatim>\<open>Z\<close>
  and the capital letters U+00C0 to U+00DE (U+00D7, the multiplication sign, apart) to the
  code unit 32 above.
\<close>

definition is_space :: "char \<Rightarrow> bool" where
  "is_space c = (c \<in> set [CHR '' '', CHR 0x09, CHR 0x0A, CHR 0x0B, CHR 0x0C, CHR 0x0D, CHR 0xA0])"

definition trim :: "string \<Rightarrow> string" where
  "trim s = rev (dropWhile is_space (rev (dropWhile is_space s)))"

definition toLowerCase_char :: "char \<Rightarrow> char" where
  "toLowerCase_char c =
     (if (65 \<le> (of_char c :: nat) \<and> (of_char c :: nat) \<le> 90)
         \<or> (192 \<le> (of_char c :: nat) \<and> (of_char c :: nat) \<le> 222 \<and> (of_char c :: nat) \<noteq> 215)
      then char_of ((of_char c :: nat) + 32) else c)"

definition toLowerCase :: "string \<Rightarrow> string" where
  "toLowerCase s = map toLowerCase_char s"

section \<open>The permission evaluator (utils/rbac.js)\<close>

text \<open>
  \<^verbatim>\<open>req.user\<close> as the authentication middleware builds it: \<^verbatim>\<open>userId\<close> is the
  ObjectId of the account (modelled by its \<^verbatim>\<open>toString()\<close> value; an ObjectId is an
  object, hence truthy whenever it is present), \<^verbatim>\<open>role\<close> the populated role document.
  Every field the evaluator guards with a truthiness test is optional here.
\<close>

record principal_role =
  permissions :: "string list option"

record principal =
  userId :: "string option"
  role :: "principal_role option"

datatype error =
    TypeError
  | InvalidAccessToken
  | InvalidRefreshToken
  | InvalidPasswordResetToken
  | InvalidCredentials
  | AccountDeactivated
  | InvalidOrExpiredResetToken
  | RoleNotFound
  | RoleNameExists
  | CannotRenameSuperAdmin
  | SuperAdminMustHaveWildcard
  | CannotDeleteSuperAdmin
  | RoleAssignedToUsers
  | ValidationError
  | DuplicateKey
  | SyntaxError

text \<open>\<^verbatim>\<open>user.role.permissions && user.role.permissions.includes(p)\<close>\<close>

definition perms_include :: "principal_role \<Rightarrow> string \<Rightarrow> bool" where
  "perms_include r p = (case permissions r of None \<Rightarrow> False | Some ps \<Rightarrow> array_includes ps p)"

text \<open>
  The first element of \<^verbatim>\<open>requiredPermission.split(':')\<close>, as the destructuring
  \<^verbatim>\<open>const [resource, action] = ...\<close> binds it.
\<close>

definition resource_of :: "string \<Rightarrow> string" where
  "resource_of p = (case split_str p (CHR '':'') of [] \<Rightarrow> ''undefined'' | r # _ \<Rightarrow> r)"

definition warn_no_role :: string where
  "warn_no_role = ''User or role not found for permission check''"

text \<open>
  \<^verbatim>\<open>hasPermission(user, requiredPermission)\<close>. The required permission is \<open>None\<close> when
  the caller passes none (\<^verbatim>\<open>undefined\<close>): \<^verbatim>\<open>includes\<close> then finds nothing in a list of
  strings, so the exact-match test is skipped below, and reading \<^verbatim>\<open>split\<close> raises a
  TypeError. The second component of the result lists the messages handed to
  \<^verbatim>\<open>logger.warn\<close>.
\<close>

function hasPermission :: "principal option \<Rightarrow> string option \<Rightarrow> (error + bool) \<times> string list" where
  "hasPermission user requiredPermission =
     (case user of
        None \<Rightarrow> (Inr False, [warn_no_role])
      | Some u \<Rightarrow>
         (case role u of
            None \<Rightarrow> (Inr False, [warn_no_role])
          | Some r \<Rightarrow>
             if perms_include r ''*:*'' then (Inr True, [])
             else
               (case requiredPermission of
                  None \<Rightarrow> (Inl TypeError, [])
                | Some req \<Rightarrow>
                    if perms_include r req then (Inr True, [])
                    else if perms_include r (resource_of req @ '':*'') then (Inr True, [])
                    else if endsWith req '':self''
                      then hasPermission user (Some (replace_first req '':self'' ''''))
                    else (Inr False, []))))"
  by pat_completeness auto
termination
proof (relation "measure (\<lambda>(u, p). case p of None \<Rightarrow> 0 | Some s \<Rightarrow> length s)")
  show "wf (measure (\<lambda>(u, p). case p of None \<Rightarrow> 0 | Some s \<Rightarrow> length s))"
    by simp
next
  fix user :: "principal option" and requiredPermission :: "string option"
    and u r req
  assume e: "endsWith req '':self''"
  have occ: "length (replace_first (pre @ pat @ post) pat []) < length (pre @ pat @ post)"
    if "pat \<noteq> []" for pre pat post :: string
    using that
  proof (induction pre)
    case Nil
    then show ?case by (cases pat) auto
  next
    case (Cons c pre)
    then show ?case by auto
  qed
  define n where "n = length req - length '':self''"
  from e have "drop n req = '':self''"
    unfolding endsWith_def n_def by blast
  with append_take_drop_id [of n req]
  have "req = take n req @ '':self'' @ []"
    by simp
  then have "length (replace_first req '':self'' []) < length req"
    using occ [of "'':self''" "take n req" "[]"] by simp
  then show "((user, Some (replace_first req '':self'' '''')), (user, requiredPermission)) \<in>
      measure (\<lambda>(u, p). case p of None \<Rightarrow> 0 | Some s \<Rightarrow> length s)"
    if "requiredPermission = Some req"
    using that by simp
qed

declare hasPermission.simps [simp del]

text \<open>
  \<^verbatim>\<open>canAccessResource(user, resourceUserId, requiredPermission)\<close>. Reading
  \<^verbatim>\<open>user.userId\<close> of an absent user, calling \<^verbatim>\<open>toString\<close> on an absent owner id and
  concatenating onto an absent permission are written out: the first two raise, the third
  yields the string \<^verbatim>\<open>"undefined:self"\<close>.
\<close>

definition canAccessResource ::
    "principal option \<Rightarrow> string option \<Rightarrow> string option \<Rightarrow> (error + bool) \<times> string list" where
  "canAccessResource user resourceUserId requiredPermission =
     (case user of
        None \<Rightarrow> (Inl TypeError, [])
      | Some u \<Rightarrow>
         (case userId u of
            None \<Rightarrow> hasPermission user requiredPermission
          | Some uid \<Rightarrow>
             (case resourceUserId of
                None \<Rightarrow> (Inl TypeError, [])
              | Some owner \<Rightarrow>
                  if uid = owner
                  then hasPermission user
                         (Some ((case requiredPermission of None \<Rightarrow> ''undefined'' | Some p \<Rightarrow> p) @ '':self''))
                  else hasPermission user requiredPermission)))"

text \<open>
  The permission format the Role model enforces before saving
  (\<^verbatim>\<open>/^[a-zA-Z0-9*]+:[a-zA-Z0-9*]+(:self)?$/\<close>): a segment is a non-empty run of
  letters, digits and asterisks.
\<close>

definition segment_char :: "char \<Rightarrow> bool" where
  "segment_char c = (c \<in> set ''abcdefghijklmnopqrstuvwxyzABCDEFGHIJKLMNOPQRSTUVWXYZ0123456789*'')"

definition segment :: "string \<Rightarrow> bool" where
  "segment s = (s \<noteq> [] \<and> list_all segment_char s)"

section \<open>JavaScript values\<close>

text \<open>
  The values that request bodies, response bodies and audit snapshots range over: what
  \<^verbatim>\<open>JSON.parse\<close> returns, and \<^verbatim>\<open>undefined\<close>. An object is its list of entries;
  a property read takes the first entry of that key. Numbers are integers here: no
  operation below computes with them, only their truthiness is read.
\<close>

datatype jsval =
    JUndefined
  | JNull
  | JBool bool
  | JNum int
  | JStr string
  | JArr "jsval list"
  | JObj "(string \<times> jsval) list"

fun truthy :: "jsval \<Rightarrow> bool" where
  "truthy JUndefined = False"
| "truthy JNull = False"
| "truthy (JBool b) = b"
| "truthy (JNum n) = (n \<noteq> 0)"
| "truthy (JStr s) = (s \<noteq> [])"
| "truthy (JArr xs) = True"
| "truthy (JObj kvs) = True"

text \<open>
  \<^verbatim>\<open>v[k]\<close> for the keys read below (\<^verbatim>\<open>data\<close>, \<^verbatim>\<open>_id\<close>, \<^verbatim>\<open>password\<close>, \<^verbatim>\<open>token\<close>,
  \<^verbatim>\<open>secret\<close>): reading a property of \<^verbatim>\<open>null\<close> or \<^verbatim>\<open>undefined\<close> raises; primitives and
  arrays have no such property.
\<close>

fun get_prop :: "jsval \<Rightarrow> string \<Rightarrow> error + jsval" where
  "get_prop JUndefined k = Inl TypeError"
| "get_prop JNull k = Inl TypeError"
| "get_prop (JObj kvs) k = Inr (case map_of kvs k of None \<Rightarrow> JUndefined | Some v \<Rightarrow> v)"
| "get_prop v k = Inr JUndefined"

text \<open>\<^verbatim>\<open>delete v[k]\<close>\<close>

fun delete_key :: "jsval \<Rightarrow> string \<Rightarrow> jsval" where
  "delete_key (JObj kvs) k = JObj (filter (\<lambda>kv. fst kv \<noteq> k) kvs)"
| "delete_key v k = v"

text \<open>\<^verbatim>\<open>v[k] = x\<close> on an object: the entry is replaced in place, or appended.\<close>

fun assign_key :: "(string \<times> jsval) list \<Rightarrow> string \<Rightarrow> jsval \<Rightarrow> (string \<times> jsval) list" where
  "assign_key [] k x = [(k, x)]"
| "assign_key (kv # kvs) k x = (if fst kv = k then (k, x) # kvs else kv # assign_key kvs k x)"

text \<open>Decimal numerals, for the index keys of a spread array.\<close>

definition digit_char :: "nat \<Rightarrow> char" where
  "digit_char n = char_of (48 + n)"

function string_of_nat :: "nat \<Rightarrow> string" where
  "string_of_nat n =
     (if n < 10 then [digit_char n] else string_of_nat (n div 10) @ [digit_char (n mod 10)])"
  by pat_completeness auto
termination
  by (relation "measure id") auto

text \<open>\<^verbatim>\<open>{ ...data }\<close> for a value whose \<^verbatim>\<open>typeof\<close> is \<^verbatim>\<open>'object'\<close>\<close>

fun spread :: "jsval \<Rightarrow> (string \<times> jsval) list" where
  "spread (JObj kvs) = kvs"
| "spread (JArr xs) = zip (map string_of_nat [0..<length xs]) xs"
| "spread v = []"

fun is_object :: "jsval \<Rightarrow> bool" where
  "is_object (JObj kvs) = True"
| "is_object (JArr xs) = True"
| "is_object JNull = True"
| "is_object v = False"

section \<open>The audit logger (middleware/audit.js)\<close>

text \<open>
  An id as it reaches an audit record: none (\<^verbatim>\<open>null\<close> or \<^verbatim>\<open>undefined\<close>), a Mongoose
  ObjectId (an object, always truthy; modelled by its hexadecimal string), or a value taken
  from a parsed response body or from the route parameters.
\<close>

datatype idref = NoId | ObjectId string | IdValue jsval

fun id_truthy :: "idref \<Rightarrow> bool" where
  "id_truthy NoId = False"
| "id_truthy (ObjectId i) = True"
| "id_truthy (IdValue v) = truthy v"

record request =
  req_user :: "principal option"
  req_body :: jsval
  req_params_id :: "string option"
  req_ip :: "string option"
  req_remoteAddress :: "string option"
  req_userAgent :: "string option"

record logData =
  log_userId :: idref
  log_action :: string
  log_resource :: string
  log_resourceId :: idref
  log_before :: jsval
  log_after :: jsval
  log_ipAddress :: "string option"
  log_userAgent :: "string option"

text \<open>\<^verbatim>\<open>req.ip || req.connection.remoteAddress\<close>\<close>

definition ipAddress_of :: "request \<Rightarrow> string option" where
  "ipAddress_of req =
     (case req_ip req of
        None \<Rightarrow> req_remoteAddress req
      | Some ip \<Rightarrow> if ip \<noteq> [] then Some ip else req_remoteAddress req)"

definition sensitiveFields :: "string list" where
  "sensitiveFields = [''password'', ''token'', ''secret'']"

text \<open>
  One round of the \<^verbatim>\<open>forEach\<close> in \<^verbatim>\<open>sanitizeData\<close>: the field is deleted when its value
  is truthy.
\<close>

definition strip_field :: "(string \<times> jsval) list \<Rightarrow> string \<Rightarrow> (string \<times> jsval) list" where
  "strip_field sanitized field =
     (case map_of sanitized field of
        None \<Rightarrow> sanitized
      | Some v \<Rightarrow> if truthy v then filter (\<lambda>kv. fst kv \<noteq> field) sanitized else sanitized)"

definition sanitizeData :: "jsval \<Rightarrow> jsval" where
  "sanitizeData data =
     (if \<not> truthy data \<or> \<not> is_object data then data
      else JObj (foldl strip_field (spread data) sensitiveFields))"

section \<open>The credential issuer (utils/jwt.js)\<close>

text \<open>
  The \<^verbatim>\<open>jsonwebtoken\<close> library is modelled symbolically: a token records the secret it
  was signed with, its payload and the \<^verbatim>\<open>iat\<close> and \<^verbatim>\<open>exp\<close> stamps (in seconds), and
  \<^verbatim>\<open>jwt.verify\<close> accepts it when the secret is the one presented and the clock has not
  reached \<^verbatim>\<open>exp\<close>. Any other string is \<open>Malformed\<close>. The clock is \<^verbatim>\<open>Date.now()\<close>, in
  milliseconds.
\<close>

record claims =
  claim_userId :: string
  claim_email :: "string option"
  claim_roleId :: "string option"
  claim_permissions :: "string list option"
  claim_type :: "string option"

record decoded = claims +
  claim_iat :: nat
  claim_exp :: nat

datatype token = Signed string claims nat nat | Malformed string

record environment =
  JWT_ACCESS_SECRET :: string
  JWT_REFRESH_SECRET :: string
  JWT_ACCESS_EXPIRES_IN :: "nat option"
  JWT_REFRESH_EXPIRES_IN :: "nat option"

definition jwt_sign :: "claims \<Rightarrow> string \<Rightarrow> nat \<Rightarrow> nat \<Rightarrow> token" where
  "jwt_sign payload secret expiresIn now =
     Signed secret payload (now div 1000) (now div 1000 + expiresIn)"

fun jwt_verify :: "token \<Rightarrow> string \<Rightarrow> nat \<Rightarrow> decoded option" where
  "jwt_verify (Malformed s) secret now = None"
| "jwt_verify (Signed k p i e) secret now =
     (if k = secret \<and> now div 1000 < e
      then Some \<lparr>claim_userId = claim_userId p, claim_email = claim_email p,
                 claim_roleId = claim_roleId p, claim_permissions = claim_permissions p,
                 claim_type = claim_type p, claim_iat = i, claim_exp = e\<rparr>
      else None)"

section \<open>The record store\<close>

text \<open>
  A stored password is the bcrypt hash of a plain password; \<^verbatim>\<open>bcrypt.compare\<close> succeeds
  exactly on the password that was hashed.
\<close>

datatype password_hash = Bcrypt string

record role_doc =
  role_id :: string
  role_name :: string
  role_permissions :: "string list"
  role_description :: "string option"

record user_doc =
  user_id :: string
  firstName :: string
  lastName :: string
  email :: string
  password :: password_hash
  user_role :: string
  isActive :: bool
  lastLogin :: "nat option"
  resetPasswordToken :: "token option"
  resetPasswordExpires :: "nat option"

record database =
  users :: "user_doc list"
  roles :: "role_doc list"
  auditLogs :: "logData list"

text \<open>A write to the first document that satisfies the filter, as \<^verbatim>\<open>save\<close> and
  \<^verbatim>\<open>findByIdAndUpdate\<close> perform it.\<close>

fun update_first :: "('a \<Rightarrow> bool) \<Rightarrow> ('a \<Rightarrow> 'a) \<Rightarrow> 'a list \<Rightarrow> 'a list" where
  "update_first P f [] = []"
| "update_first P f (x # xs) = (if P x then f x # xs else x # update_first P f xs)"


text \<open>\<^verbatim>\<open>User.findOne({ email })\<close>: the User schema lowercases and trims the email of
  the filter before it is matched.\<close>

definition findUserByEmail :: "database \<Rightarrow> string \<Rightarrow> user_doc option" where
  "findUserByEmail db e = find (\<lambda>u. email u = toLowerCase (trim e)) (users db)"




definition save_user :: "database \<Rightarrow> user_doc \<Rightarrow> database" where
  "save_user db u = db\<lparr>users := update_first (\<lambda>x. user_id x = user_id u) (\<lambda>x. u) (users db)\<rparr>"


subsection \<open>Token generation and verification\<close>

definition generateAccessToken :: "environment \<Rightarrow> user_doc \<Rightarrow> role_doc option \<Rightarrow> nat \<Rightarrow> error + token" where
  "generateAccessToken env user populated now =
     (case populated of
        None \<Rightarrow> Inl TypeError
      | Some r \<Rightarrow>
          Inr (jwt_sign
                \<lparr>claim_userId = user_id user, claim_email = Some (email user),
                   claim_roleId = Some (role_id r), claim_permissions = Some (role_permissions r),
                   claim_type = None\<rparr>
                (JWT_ACCESS_SECRET env)
                (case JWT_ACCESS_EXPIRES_IN env of None \<Rightarrow> 15 * 60 | Some t \<Rightarrow> t)
                now))"

definition generateRefreshToken :: "environment \<Rightarrow> user_doc \<Rightarrow> nat \<Rightarrow> token" where
  "generateRefreshToken env user now =
     jwt_sign
       \<lparr>claim_userId = user_id user, claim_email = None, claim_roleId = None,
          claim_permissions = None, claim_type = None\<rparr>
       (JWT_REFRESH_SECRET env)
       (case JWT_REFRESH_EXPIRES_IN env of None \<Rightarrow> 7 * 24 * 60 * 60 | Some t \<Rightarrow> t)
       now"

definition verifyAccessToken :: "environment \<Rightarrow> token \<Rightarrow> nat \<Rightarrow> error + decoded" where
  "verifyAccessToken env tok now =
     (case jwt_verify tok (JWT_ACCESS_SECRET env) now of
        None \<Rightarrow> Inl InvalidAccessToken
      | Some d \<Rightarrow> Inr d)"

definition verifyRefreshToken :: "environment \<Rightarrow> token \<Rightarrow> nat \<Rightarrow> error + decoded" where
  "verifyRefreshToken env tok now =
     (case jwt_verify tok (JWT_REFRESH_SECRET env) now of
        None \<Rightarrow> Inl InvalidRefreshToken
      | Some d \<Rightarrow> Inr d)"

definition generatePasswordResetToken :: "environment \<Rightarrow> user_doc \<Rightarrow> nat \<Rightarrow> token" where
  "generatePasswordResetToken env user now =
     jwt_sign
       \<lparr>claim_userId = user_id user, claim_email = None, claim_roleId = None,
          claim_permissions = None, claim_type = Some ''password-reset''\<rparr>
       (JWT_ACCESS_SECRET env) (60 * 60) now"

definition verifyPasswordResetToken :: "environment \<Rightarrow> token \<Rightarrow> nat \<Rightarrow> error + decoded" where
  "verifyPasswordResetToken env tok now =
     (case jwt_verify tok (JWT_ACCESS_SECRET env) now of
        None \<Rightarrow> Inl InvalidPasswordResetToken
      | Some d \<Rightarrow>
          if claim_type d \<noteq> Some ''password-reset'' then Inl InvalidPasswordResetToken
          else Inr d)"

subsection \<open>Writing audit records\<close>

text \<open>
  The AuditLog schema: \<^verbatim>\<open>action\<close> and \<^verbatim>\<open>resource\<close> are required and drawn from an
  enumeration; \<^verbatim>\<open>userId\<close> and \<^verbatim>\<open>resourceId\<close> are optional ObjectIds. An ObjectId is
  stored as it is, and a string is cast to one when it consists of 24 hexadecimal digits,
  the form in which the API's responses and routes carry an id; a value of another shape
  is taken not to cast.
\<close>

definition auditActions :: "string list" where
  "auditActions =
     [''CREATE_USER'', ''UPDATE_USER'', ''DELETE_USER'', ''READ_USER'', ''READ_USERS'',
      ''CREATE_ROLE'', ''UPDATE_ROLE'', ''DELETE_ROLE'', ''READ_ROLE'', ''READ_ROLES'',
      ''LOGIN'', ''LOGOUT'', ''FAILED_LOGIN'',
      ''CHANGE_PASSWORD'', ''RESET_PASSWORD'',
      ''ASSIGN_ROLE'']"

definition auditResources :: "string list" where
  "auditResources = [''users'', ''roles'', ''auth'']"

definition is_hex_digit :: "char \<Rightarrow> bool" where
  "is_hex_digit c = (c \<in> set ''0123456789abcdefABCDEF'')"

fun casts_to_ObjectId :: "idref \<Rightarrow> bool" where
  "casts_to_ObjectId NoId = True"
| "casts_to_ObjectId (ObjectId i) = True"
| "casts_to_ObjectId (IdValue (JStr s)) = (length s = 24 \<and> list_all is_hex_digit s)"
| "casts_to_ObjectId (IdValue v) = False"

definition auditLog_valid :: "logData \<Rightarrow> bool" where
  "auditLog_valid logData =
     (array_includes auditActions (log_action logData) \<and>
      array_includes auditResources (log_resource logData) \<and>
      casts_to_ObjectId (log_userId logData) \<and>
      casts_to_ObjectId (log_resourceId logData))"

text \<open>
  \<^verbatim>\<open>AuditLogger.log\<close> saves the record through the schema; when \<^verbatim>\<open>save\<close> rejects it the
  error is logged and swallowed, and nothing is stored. The list \<open>auditLogs\<close> holds the
  stored records, in order.
\<close>

definition log :: "database \<Rightarrow> logData \<Rightarrow> database" where
  "log db logData =
     (if auditLog_valid logData then db\<lparr>auditLogs := auditLogs db @ [logData]\<rparr> else db)"


definition logUserAction ::
    "database \<Rightarrow> string \<Rightarrow> string \<Rightarrow> idref \<Rightarrow> user_doc \<Rightarrow> jsval \<Rightarrow> jsval \<Rightarrow> request option \<Rightarrow> database" where
  "logUserAction db action resource resourceId user before after req =
     log db
       \<lparr>log_userId = ObjectId (user_id user),
          log_action = action,
          log_resource = resource,
          log_resourceId = resourceId,
          log_before = sanitizeData before,
          log_after = sanitizeData after,
          log_ipAddress = (case req of None \<Rightarrow> None | Some r \<Rightarrow> ipAddress_of r),
          log_userAgent = (case req of None \<Rightarrow> None | Some r \<Rightarrow> req_userAgent r)\<rparr>"

section \<open>The session lifecycle (AuthService)\<close>




record forgot_result =
  message :: string
  resetToken :: "token option"

definition forgot_message :: string where
  "forgot_message = ''If an account with this email exists, a password reset link has been sent''"

definition forgotPassword ::
    "environment \<Rightarrow> database \<Rightarrow> string \<Rightarrow> request \<Rightarrow> nat \<Rightarrow> forgot_result \<times> database" where
  "forgotPassword env db email_arg req now =
     (case findUserByEmail db email_arg of
        None \<Rightarrow> (\<lparr>message = forgot_message, resetToken = None\<rparr>, db)
      | Some user \<Rightarrow>
          (let tok = generatePasswordResetToken env user now;
               user1 = user\<lparr>resetPasswordToken := Some tok,
                            resetPasswordExpires := Some (now + 3600000)\<rparr>;
               db1 = save_user db user1;
               db2 = logUserAction db1 ''RESET_PASSWORD'' ''auth'' (ObjectId (user_id user1)) user1
                       JNull (JObj [(''email'', JStr email_arg)]) (Some req)
           in (\<lparr>message = forgot_message, resetToken = Some tok\<rparr>, db2)))"

text \<open>
  \<^verbatim>\<open>AuthController.forgotPassword\<close>: the JSON body of the response,
  \<^verbatim>\<open>{ success, message, data: result.resetToken ? { resetToken } : null }\<close>. A token is a
  non-empty string, hence truthy.
\<close>

record forgot_response =
  res_success :: bool
  res_message :: string
  res_data :: "token option"

definition forgotPassword_controller ::
    "environment \<Rightarrow> database \<Rightarrow> string \<Rightarrow> request \<Rightarrow> nat \<Rightarrow> forgot_response \<times> database" where
  "forgotPassword_controller env db email_arg req now =
     (case forgotPassword env db email_arg req now of
        (result, db1) \<Rightarrow>
          (\<lparr>res_success = True, res_message = message result, res_data = resetToken result\<rparr>, db1))"

text \<open>
  \<^verbatim>\<open>User.findOne({ _id, resetPasswordToken: token, resetPasswordExpires: { $gt: Date.now() } })\<close>
\<close>

definition findUserForReset :: "database \<Rightarrow> string \<Rightarrow> token \<Rightarrow> nat \<Rightarrow> user_doc option" where
  "findUserForReset db uid tok now =
     find (\<lambda>u. user_id u = uid \<and> resetPasswordToken u = Some tok \<and>
               (case resetPasswordExpires u of None \<Rightarrow> False | Some e \<Rightarrow> now < e))
          (users db)"

text \<open>
  \<^verbatim>\<open>resetPassword(token, newPassword, req)\<close>. \<^verbatim>\<open>user.save()\<close> validates the new
  password against the schema (at least 6 characters) before the pre-save hook hashes it;
  when it rejects, nothing is written.
\<close>

definition reset_message :: string where
  "reset_message = ''Password has been reset successfully''"

definition resetPassword ::
    "environment \<Rightarrow> database \<Rightarrow> token \<Rightarrow> string \<Rightarrow> request \<Rightarrow> nat \<Rightarrow> (error + string) \<times> database" where
  "resetPassword env db tok newPassword req now =
     (case verifyPasswordResetToken env tok now of
        Inl e \<Rightarrow> (Inl e, db)
      | Inr d \<Rightarrow>
          (case findUserForReset db (claim_userId d) tok now of
             None \<Rightarrow> (Inl InvalidOrExpiredResetToken, db)
           | Some user \<Rightarrow>
               if length newPassword < 6 then (Inl ValidationError, db)
               else
               (let user1 = user\<lparr>password := Bcrypt newPassword,
                                resetPasswordToken := None,
                                resetPasswordExpires := None\<rparr>;
                    db1 = save_user db user1;
                    db2 = logUserAction db1 ''CHANGE_PASSWORD'' ''auth'' (ObjectId (user_id user1)) user1
                            JNull (JObj [(''reason'', JStr ''Password reset'')]) (Some req)
                in (Inr reset_message, db2))))"

section \<open>Role management (RoleService)\<close>






section \<open>The audit interceptor (AuditLogger.auditAction)\<close>

record options =
  captureBefore :: bool
  captureAfter :: bool
  resourceIdExtractor :: "(request \<Rightarrow> idref) option"

text \<open>
  What the patched \<^verbatim>\<open>res.send\<close> captured last: nothing, a text that \<^verbatim>\<open>JSON.parse\<close>
  rejects, or a JSON text, given by the value \<^verbatim>\<open>JSON.parse\<close> returns for it. Only the
  empty text is falsy.
\<close>

datatype response_data = NoData | Text string | JsonText jsval

fun data_truthy :: "response_data \<Rightarrow> bool" where
  "data_truthy NoData = False"
| "data_truthy (Text s) = (s \<noteq> [])"
| "data_truthy (JsonText v) = True"

fun JSON_parse :: "response_data \<Rightarrow> error + jsval" where
  "JSON_parse (JsonText v) = Inr v"
| "JSON_parse d = Inl SyntaxError"

record response =
  statusCode :: nat
  responseData :: response_data

definition extractResourceId :: "request \<Rightarrow> options \<Rightarrow> idref" where
  "extractResourceId req opts =
     (case resourceIdExtractor opts of
        Some extractor \<Rightarrow> extractor req
      | None \<Rightarrow>
          (case req_params_id req of
             None \<Rightarrow> NoId
           | Some i \<Rightarrow> if i \<noteq> [] then IdValue (JStr i) else NoId))"

text \<open>The value of \<^verbatim>\<open>v[k]\<close> where \<^verbatim>\<open>v\<close> is known to be neither \<^verbatim>\<open>null\<close> nor
  \<^verbatim>\<open>undefined\<close>.\<close>

definition field :: "jsval \<Rightarrow> string \<Rightarrow> jsval" where
  "field v k = (case get_prop v k of Inl e \<Rightarrow> JUndefined | Inr x \<Rightarrow> x)"

definition extractAfterData :: "response_data \<Rightarrow> options \<Rightarrow> jsval" where
  "extractAfterData rd opts =
     (if \<not> data_truthy rd \<or> \<not> captureAfter opts then JNull
      else
        (case JSON_parse rd of
           Inl e \<Rightarrow> JNull
         | Inr parsed \<Rightarrow>
             (case get_prop parsed ''data'' of
                Inl e \<Rightarrow> JNull
              | Inr d \<Rightarrow>
                  if truthy d then
                    (if truthy (field d ''password'') then delete_key d ''password'' else d)
                  else parsed)))"

text \<open>
  The body of the two \<^verbatim>\<open>try\<close> blocks that look for an id in the response; a parse error
  or a TypeError leaves \<^verbatim>\<open>userId\<close> as it was.
\<close>

definition id_from_response :: "idref \<Rightarrow> response_data \<Rightarrow> idref" where
  "id_from_response uid rd =
     (case JSON_parse rd of
        Inl e \<Rightarrow> uid
      | Inr parsed \<Rightarrow>
          (case get_prop parsed ''data'' of
             Inl e \<Rightarrow> uid
           | Inr d \<Rightarrow>
               if truthy d \<and> truthy (field d ''_id'') then IdValue (field d ''_id'')
               else if truthy (field parsed ''_id'') then IdValue (field parsed ''_id'')
               else uid))"

definition request_userId :: "request \<Rightarrow> idref" where
  "request_userId req =
     (case req_user req of
        None \<Rightarrow> NoId
      | Some u \<Rightarrow> (case userId u of None \<Rightarrow> NoId | Some i \<Rightarrow> ObjectId i))"

text \<open>
  \<^verbatim>\<open>auditAction(action, resource, options)\<close> wraps the rest of the chain, \<open>next\<close>, which
  runs the operation on the store and yields the finished response, or none when the
  response never finishes. The \<^verbatim>\<open>finish\<close> handler sees the store the operation left.
\<close>

definition auditAction ::
    "string \<Rightarrow> string \<Rightarrow> options \<Rightarrow> (request \<Rightarrow> database \<Rightarrow> response option \<times> database) \<Rightarrow>
     request \<Rightarrow> database \<Rightarrow> response option \<times> database" where
  "auditAction action resource opts next req db =
     (case next req db of
        (None, db1) \<Rightarrow> (None, db1)
      | (Some res, db1) \<Rightarrow>
          if 200 \<le> statusCode res \<and> statusCode res < 300 then
            (let rd = responseData res;
                 uid0 = request_userId req;
                 uid1 = (if \<not> id_truthy uid0 \<and> action = ''CREATE_USER'' \<and> data_truthy rd
                         then id_from_response uid0 rd else uid0);
                 uid2 = (if \<not> id_truthy uid1 \<and> data_truthy rd \<and> action \<noteq> ''CREATE_USER''
                         then id_from_response uid1 rd else uid1);
                 uid3 = (if \<not> id_truthy uid2 \<and> action = ''CREATE_USER'' \<and> id_truthy (request_userId req)
                         then request_userId req else uid2)
             in (Some res,
                 log db1
                   \<lparr>log_userId = uid3,
                      log_action = action,
                      log_resource = resource,
                      log_resourceId = extractResourceId req opts,
                      log_before = (if captureBefore opts then sanitizeData (req_body req) else JNull),
                      log_after = extractAfterData rd opts,
                      log_ipAddress = ipAddress_of req,
                      log_userAgent = req_userAgent req\<rparr>))
          else (Some res, db1))"

section \<open>Sample data\<close>

text \<open>A small store, a request and two downstream operations, for the concrete instances below.\<close>

definition sample_env :: environment where
  "sample_env = \<lparr>JWT_ACCESS_SECRET = ''access-secret'', JWT_REFRESH_SECRET = ''refresh-secret'',
                  JWT_ACCESS_EXPIRES_IN = None, JWT_REFRESH_EXPIRES_IN = None\<rparr>"

definition sample_request :: request where
  "sample_request = \<lparr>req_user = None, req_body = JObj [], req_params_id = None,
                      req_ip = Some ''10.0.0.7'', req_remoteAddress = None,
                      req_userAgent = Some ''curl/8.0''\<rparr>"

definition alice :: user_doc where
  "alice = \<lparr>user_id = ''64a1'', firstName = ''Alice'', lastName = ''Ng'',
             email = ''alice@example.com'', password = Bcrypt ''correct horse'',
             user_role = ''r2'', isActive = True, lastLogin = None,
             resetPasswordToken = None, resetPasswordExpires = None\<rparr>"

definition bob :: user_doc where
  "bob = \<lparr>user_id = ''64b2'', firstName = ''Bob'', lastName = ''Roe'',
           email = ''bob@example.com'', password = Bcrypt ''tr0ub4dor'',
           user_role = ''r2'', isActive = False, lastLogin = None,
           resetPasswordToken = None, resetPasswordExpires = None\<rparr>"

definition super_admin_role :: role_doc where
  "super_admin_role = \<lparr>role_id = ''r1'', role_name = ''super-admin'',
                        role_permissions = [''*:*''], role_description = Some ''Full system access''\<rparr>"

definition user_role_doc :: role_doc where
  "user_role_doc = \<lparr>role_id = ''r2'', role_name = ''user'',
                     role_permissions = [''user:read:self'', ''user:update:self''],
                     role_description = Some ''Standard user with limited permissions''\<rparr>"

definition sample_db :: database where
  "sample_db = \<lparr>users = [alice, bob], roles = [super_admin_role, user_role_doc], auditLogs = []\<rparr>"

definition pending_db :: database where
  "pending_db = snd (forgotPassword sample_env sample_db ''alice@example.com'' sample_request 1000)"

definition pending_token :: token where
  "pending_token = generatePasswordResetToken sample_env alice 1000"

definition failing_operation :: "request \<Rightarrow> database \<Rightarrow> response option \<times> database" where
  "failing_operation req db =
     (Some \<lparr>statusCode = 403,
            responseData = JsonText (JObj [(''success'', JBool False),
                                           (''message'', JStr ''Insufficient permissions'')])\<rparr>,
      db)"

definition update_operation :: "request \<Rightarrow> database \<Rightarrow> response option \<times> database" where
  "update_operation req db =
     (Some \<lparr>statusCode = 200,
            responseData = JsonText (JObj [(''success'', JBool True),
                                           (''data'', JObj [(''_id'', JStr ''64a1f0c2e4b0a1b2c3d4e5f6''),
                                                            (''password'', JStr ''$2a$12$hash''),
                                                            (''token'', JStr ''tok-123''),
                                                            (''secret'', JStr ''s3cr3t'')])])\<rparr>,
      db)"

definition unwrapped_operation :: "request \<Rightarrow> database \<Rightarrow> response option \<times> database" where
  "unwrapped_operation req db =
     (Some \<lparr>statusCode = 200,
            responseData = JsonText (JObj [(''_id'', JStr ''64a1f0c2e4b0a1b2c3d4e5f6''),
                                           (''password'', JStr ''$2a$12$hash'')])\<rparr>,
      db)"

definition admin_request :: request where
  "admin_request =
     \<lparr>req_user = Some \<lparr>userId = Some ''64c3a9d1e4b0a1b2c3d4e5f7'',
                        role = Some \<lparr>permissions = Some [''user:*'', ''role:*'', ''audit:read'']\<rparr>\<rparr>,
        req_body = JObj [(''firstName'', JStr ''Al''), (''password'', JStr ''hunter2''),
                         (''token'', JStr ''tok-123'')],
        req_params_id = Some ''64a1f0c2e4b0a1b2c3d4e5f6'',
        req_ip = Some ''10.0.0.7'', req_remoteAddress = None,
        req_userAgent = Some ''curl/8.0''\<rparr>"



definition capture_both :: options where
  "capture_both = \<lparr>captureBefore = True, captureAfter = True, resourceIdExtractor = None\<rparr>"

section \<open>Properties of the permission evaluator\<close>

lemma colon_not_segment_char: "\<not> segment_char (CHR '':'')"
  by (simp add: segment_char_def)

lemma segment_no_colon: "segment s \<Longrightarrow> CHR '':'' \<notin> set s"
  using colon_not_segment_char by (auto simp: segment_def list_all_iff)

lemma split_str_first: "sep \<notin> set r \<Longrightarrow> split_str (r @ sep # rest) sep = r # split_str rest sep"
  by (induction r) auto

lemma resource_of_colon: "CHR '':'' \<notin> set r \<Longrightarrow> resource_of (r @ CHR '':'' # rest) = r"
  by (simp add: resource_of_def split_str_first)

lemma split_str_hd_no_sep: "split_str s sep = x # xs \<Longrightarrow> sep \<notin> set x"
  by (induction s arbitrary: x xs) (auto split: if_splits list.splits)

lemma split_str_nonempty: "split_str s sep \<noteq> []"
  by (induction s) (auto split: list.splits)

lemma resource_of_no_colon: "CHR '':'' \<notin> set (resource_of s)"
proof (cases "split_str s (CHR '':'')")
  case Nil
  then show ?thesis using split_str_nonempty by blast
next
  case (Cons x xs)
  then show ?thesis using split_str_hd_no_sep [OF Cons] by (simp add: resource_of_def)
qed

lemma hasPermission_wildcard:
  "role u = Some ro \<Longrightarrow> perms_include ro ''*:*'' \<Longrightarrow> hasPermission (Some u) p = (Inr True, [])"
  by (subst hasPermission.simps) simp

lemma hasPermission_exact:
  "role u = Some ro \<Longrightarrow> perms_include ro req \<Longrightarrow> hasPermission (Some u) (Some req) = (Inr True, [])"
  by (subst hasPermission.simps) simp

lemma hasPermission_resource_wildcard:
  "role u = Some ro \<Longrightarrow> perms_include ro (r @ '':*'') \<Longrightarrow> CHR '':'' \<notin> set r \<Longrightarrow>
   hasPermission (Some u) (Some (r @ CHR '':'' # rest)) = (Inr True, [])"
  by (subst hasPermission.simps) (simp add: resource_of_colon)

lemma count_drop_le: "count_list (drop n xs) c \<le> count_list xs c"
proof -
  have "count_list (take n xs @ drop n xs) c = count_list (take n xs) c + count_list (drop n xs) c"
    by (rule count_list_append)
  then show ?thesis by simp
qed

lemma count_replace_first_le: "count_list (replace_first s pat []) c \<le> count_list s c"
proof (induction s)
  case Nil
  then show ?case by simp
next
  case (Cons x s)
  show ?case
  proof (cases "take (length pat) (x # s) = pat")
    case True
    then show ?thesis using count_drop_le [of "length pat" "x # s" c] by simp
  next
    case False
    then show ?thesis using Cons by simp
  qed
qed

lemma replace_first_occ:
  "pat \<noteq> [] \<Longrightarrow> length (replace_first (pre @ pat @ post) pat []) < length (pre @ pat @ post)"
proof (induction pre)
  case Nil
  then show ?case by (cases pat) auto
next
  case (Cons c pre)
  then show ?case by auto
qed

lemma replace_first_shorter:
  assumes "endsWith req pat" and "pat \<noteq> []"
  shows "length (replace_first req pat []) < length req"
proof -
  define n where "n = length req - length pat"
  from assms(1) have "drop n req = pat"
    unfolding endsWith_def n_def by blast
  with append_take_drop_id [of n req] have "req = take n req @ pat @ []"
    by simp
  then show ?thesis
    using replace_first_occ [OF assms(2), of "take n req" "[]"] by metis
qed

lemma hasPermission_few_colons:
  assumes "role u = Some ro" and "permissions ro = Some ps"
    and "\<forall>p \<in> set ps. 2 \<le> count_list p (CHR '':'')"
  shows "count_list req (CHR '':'') \<le> 1 \<Longrightarrow> hasPermission (Some u) (Some req) = (Inr False, [])"
proof (induction "length req" arbitrary: req rule: less_induct)
  case less
  have star: "\<not> perms_include ro ''*:*''"
    using assms(2,3) by (auto simp: perms_include_def array_includes_def)
  have exact: "\<not> perms_include ro req"
    using assms(2,3) less.prems by (auto simp: perms_include_def array_includes_def)
  have "count_list (resource_of req @ '':*'') (CHR '':'') = 1"
    using resource_of_no_colon [of req] by (simp add: count_list_0_iff)
  then have wild: "\<not> perms_include ro (resource_of req @ '':*'')"
    using assms(2,3) by (auto simp: perms_include_def array_includes_def)
  show ?case
  proof (cases "endsWith req '':self''")
    case False
    then show ?thesis
      using star exact wild assms(1) by (subst hasPermission.simps) simp
  next
    case True
    have shorter: "length (replace_first req '':self'' []) < length req"
      using replace_first_shorter [OF True] by simp
    have "count_list (replace_first req '':self'' []) (CHR '':'') \<le> 1"
      using count_replace_first_le [of req "'':self''" "CHR '':''"] less.prems by linarith
    then have "hasPermission (Some u) (Some (replace_first req '':self'' [])) = (Inr False, [])"
      using less.hyps [OF shorter] by blast
    then show ?thesis
      using star exact wild assms(1) True by (subst hasPermission.simps) simp
  qed
qed

lemma count_colon_free: "CHR '':'' \<notin> set s \<Longrightarrow> count_list s (CHR '':'') = 0"
  by (simp add: count_list_0_iff)

lemma only_self_denies_base:
  assumes "role u = Some ro" and "permissions ro = Some ps"
    and "set ps = {r @ '':'' @ a @ '':self''}"
    and "CHR '':'' \<notin> set r" and "CHR '':'' \<notin> set a"
  shows "hasPermission (Some u) (Some (r @ '':'' @ a)) = (Inr False, [])"
proof -
  have "\<forall>p \<in> set ps. 2 \<le> count_list p (CHR '':'')"
    using assms(3-5) by (simp add: count_colon_free)
  moreover have "count_list (r @ '':'' @ a) (CHR '':'') \<le> 1"
    using assms(4,5) by (simp add: count_colon_free)
  ultimately show ?thesis
    using hasPermission_few_colons [OF assms(1,2)] by blast
qed

lemma replace_self_suffix:
  "CHR '':'' \<notin> set a \<Longrightarrow> replace_first (a @ '':self'') '':self'' [] = a"
  by (induction a) auto

lemma replace_self_first:
  assumes "CHR '':'' \<notin> set r" and "CHR '':'' \<notin> set a"
    and "a = ''self'' \<or> take 4 a \<noteq> ''self''"
  shows "replace_first (r @ CHR '':'' # a @ '':self'') '':self'' [] = r @ CHR '':'' # a"
  using assms(1)
proof (induction r)
  case Nil
  show ?case
  proof (cases "a = ''self''")
    case True
    then show ?thesis by simp
  next
    case False
    with assms(3) have ne: "take 4 a \<noteq> ''self''" by blast
    have "take 4 (a @ '':self'') \<noteq> ''self''"
    proof (cases "4 \<le> length a")
      case True
      then show ?thesis using ne by simp
    next
      case False
      then have "CHR '':'' \<in> set (take 4 (a @ '':self''))"
        by (simp add: take_Cons')
      moreover have "CHR '':'' \<notin> set ''self''"
        by simp
      ultimately show ?thesis by metis
    qed
    then show ?thesis
      using replace_self_suffix [OF assms(2)] by (simp add: eval_nat_numeral)
  qed
next
  case (Cons c r)
  then show ?case by auto
qed

lemma hasPermission_self_of_base:
  assumes "CHR '':'' \<notin> set r" and "CHR '':'' \<notin> set a"
    and "a = ''self'' \<or> take 4 a \<noteq> ''self''"
    and "fst (hasPermission (Some u) (Some (r @ CHR '':'' # a))) = Inr True"
  shows "fst (hasPermission (Some u) (Some (r @ CHR '':'' # a @ '':self''))) = Inr True"
proof -
  have e: "endsWith (r @ CHR '':'' # a @ '':self'') '':self''"
    by (simp add: endsWith_def)
  show ?thesis
  proof (cases "role u")
    case None
    then have "fst (hasPermission (Some u) (Some (r @ CHR '':'' # a))) = Inr False"
      by (subst hasPermission.simps) simp
    with assms(4) show ?thesis by simp
  next
    case (Some ro)
    then show ?thesis
      using assms(4) e replace_self_first [OF assms(1-3)]
      by (subst hasPermission.simps) simp
  qed
qed

lemma hasPermission_string_no_error:
  "rp \<noteq> None \<Longrightarrow> \<exists>b. fst (hasPermission user rp) = Inr b"
proof (induction user rp rule: hasPermission.induct)
  case (1 user requiredPermission)
  then show ?case
    by (subst hasPermission.simps) (auto split: option.splits)
qed

lemma hasPermission_warnings:
  "snd (hasPermission user rp) =
     (case user of None \<Rightarrow> [warn_no_role]
      | Some u \<Rightarrow> (case role u of None \<Rightarrow> [warn_no_role] | Some _ \<Rightarrow> []))"
proof (induction user rp rule: hasPermission.induct)
  case (1 user requiredPermission)
  then show ?case
    by (subst hasPermission.simps) (auto split: option.splits)
qed

lemma hasPermission_no_permission_list:
  "role u = Some ro \<Longrightarrow> permissions ro = None \<Longrightarrow> fst (hasPermission (Some u) (Some p)) = Inr False"
proof (induction "length p" arbitrary: p rule: less_induct)
  case less
  have none: "\<not> perms_include ro x" for x
    using less.prems(2) by (simp add: perms_include_def)
  show ?case
  proof (cases "endsWith p '':self''")
    case True
    then show ?thesis
      using less.hyps [OF replace_first_shorter [OF True]] less.prems none
      by (subst hasPermission.simps) simp
  next
    case False
    then show ?thesis
      using less.prems none by (subst hasPermission.simps) simp
  qed
qed

text \<open>
  Claim C1. The evaluator short-circuits on the universal wildcard, an exact match and
  the resource wildcard (\<open>hasPermission_wildcard\<close>, \<open>hasPermission_exact\<close>,
  \<open>hasPermission_resource_wildcard\<close>), and a set holding only \<^verbatim>\<open>r:a:self\<close> does not
  grant \<^verbatim>\<open>r:a\<close> (\<open>only_self_denies_base\<close>). The step for the \<^verbatim>\<open>:self\<close> suffix removes
  the first occurrence of \<^verbatim>\<open>:self\<close>, not the suffix: it agrees with stripping the suffix
  unless the action properly begins with \<^verbatim>\<open>self\<close> (\<open>hasPermission_self_of_base\<close>). For
  the well-formed permission \<^verbatim>\<open>user:selfupdate\<close> the base permission is granted and the
  self-scoped one is refused, because the recursion continues on \<^verbatim>\<open>userupdate:self\<close>.
\<close>

theorem hasPermission_self_suffix_slip:
  "segment ''user'' \<and> segment ''selfupdate'' \<and>
   fst (hasPermission
          (Some \<lparr>userId = Some ''u1'', role = Some \<lparr>permissions = Some [''user:selfupdate'']\<rparr>\<rparr>)
          (Some ''user:selfupdate'')) = Inr True \<and>
   replace_first ''user:selfupdate:self'' '':self'' '''' = ''userupdate:self'' \<and>
   fst (hasPermission
          (Some \<lparr>userId = Some ''u1'', role = Some \<lparr>permissions = Some [''user:selfupdate'']\<rparr>\<rparr>)
          (Some ''user:selfupdate:self'')) = Inr False"
  by (simp add: segment_def segment_char_def hasPermission.simps perms_include_def
      array_includes_def resource_of_def endsWith_def)

text \<open>
  Claim C2. For a present principal and owner id and a required permission \<^verbatim>\<open>r:a\<close>,
  \<^verbatim>\<open>canAccessResource\<close> evaluates \<^verbatim>\<open>r:a:self\<close> exactly when the principal's id equals
  the owner id, and \<^verbatim>\<open>r:a\<close> otherwise; a principal whose permission set holds only
  \<^verbatim>\<open>r:a:self\<close> is therefore admitted if and only if it is the owner.
\<close>

theorem canAccessResource_ownership:
  assumes "CHR '':'' \<notin> set r" and "CHR '':'' \<notin> set a"
  shows "canAccessResource (Some u) (Some owner) (Some (r @ '':'' @ a)) =
           (if userId u = Some owner
            then hasPermission (Some u) (Some (r @ '':'' @ a @ '':self''))
            else hasPermission (Some u) (Some (r @ '':'' @ a)))
         \<and> (\<forall>ro ps. role u = Some ro \<and> permissions ro = Some ps
                \<and> set ps = {r @ '':'' @ a @ '':self''} \<longrightarrow>
              fst (canAccessResource (Some u) (Some owner) (Some (r @ '':'' @ a)))
                = Inr (userId u = Some owner))"
proof (intro conjI allI impI)
  show eq: "canAccessResource (Some u) (Some owner) (Some (r @ '':'' @ a)) =
           (if userId u = Some owner
            then hasPermission (Some u) (Some (r @ '':'' @ a @ '':self''))
            else hasPermission (Some u) (Some (r @ '':'' @ a)))"
    by (simp add: canAccessResource_def split: option.splits)
  fix ro ps
  assume h: "role u = Some ro \<and> permissions ro = Some ps \<and> set ps = {r @ '':'' @ a @ '':self''}"
  show "fst (canAccessResource (Some u) (Some owner) (Some (r @ '':'' @ a)))
          = Inr (userId u = Some owner)"
  proof (cases "userId u = Some owner")
    case True
    have "perms_include ro (r @ '':'' @ a @ '':self'')"
      using h by (simp add: perms_include_def array_includes_def)
    then have "hasPermission (Some u) (Some (r @ '':'' @ a @ '':self'')) = (Inr True, [])"
      using h hasPermission_exact by blast
    then show ?thesis using True eq by simp
  next
    case False
    have "hasPermission (Some u) (Some (r @ '':'' @ a)) = (Inr False, [])"
      using only_self_denies_base [of u ro ps r a] h assms by blast
    then show ?thesis using False eq by simp
  qed
qed

theorem canAccessResource_ownership_witness:
  "fst (canAccessResource
          (Some \<lparr>userId = Some ''64a1'', role = Some \<lparr>permissions = Some [''user:update:self'']\<rparr>\<rparr>)
          (Some ''64a10'') (Some ''user:update'')) = Inr False \<and>
   fst (canAccessResource
          (Some \<lparr>userId = Some ''64a1'', role = Some \<lparr>permissions = Some [''user:update:self'']\<rparr>\<rparr>)
          (Some ''64a1'') (Some ''user:update'')) = Inr True"
proof -
  let ?ro = "\<lparr>permissions = Some [''user:update:self'']\<rparr>"
  let ?u = "\<lparr>userId = Some ''64a1'', role = Some ?ro\<rparr>"
  have c: "CHR '':'' \<notin> set ''user''" "CHR '':'' \<notin> set ''update''"
    by simp_all
  note w = canAccessResource_ownership [OF c, of ?u, THEN conjunct2, rule_format,
      where ro = ?ro and ps = "[''user:update:self'']"]
  have "fst (canAccessResource (Some ?u) (Some ''64a10'') (Some (''user'' @ '':'' @ ''update'')))
          = Inr (userId ?u = Some ''64a10'')"
    by (rule w) simp
  moreover have "fst (canAccessResource (Some ?u) (Some ''64a1'') (Some (''user'' @ '':'' @ ''update'')))
          = Inr (userId ?u = Some ''64a1'')"
    by (rule w) simp
  ultimately show ?thesis by simp
qed

text \<open>
  Claim C10, as stated, fails: with a role that lacks the universal wildcard, an absent
  required permission makes \<^verbatim>\<open>hasPermission\<close> raise a TypeError at \<^verbatim>\<open>split\<close>, and an
  absent owner id makes \<^verbatim>\<open>canAccessResource\<close> raise at \<^verbatim>\<open>toString\<close>.
\<close>

theorem evaluator_raises_counterexample:
  "fst (hasPermission
          (Some \<lparr>userId = Some ''64a1'', role = Some \<lparr>permissions = Some [''user:read'']\<rparr>\<rparr>)
          None) = Inl TypeError \<and>
   fst (canAccessResource
          (Some \<lparr>userId = Some ''64a1'', role = Some \<lparr>permissions = Some [''user:read'']\<rparr>\<rparr>)
          None (Some ''user:read'')) = Inl TypeError"
  by (simp add: hasPermission.simps canAccessResource_def perms_include_def array_includes_def)

text \<open>
  Claim C10, amended. For a required permission that is a string \<^verbatim>\<open>hasPermission\<close>
  raises no error and yields a boolean for every user, absent or present. It yields false
  for an absent user and for an absent role, whatever the required permission, and for an
  absent permission list when the required permission is a string. \<^verbatim>\<open>canAccessResource\<close>
  yields a boolean when the user, the owner id and the required permission are all present.
  The only effect of \<^verbatim>\<open>hasPermission\<close> is one warning handed to the logger when the user
  or the role is absent.
\<close>

theorem evaluator_total_on_strings:
  "(\<exists>b. fst (hasPermission user (Some p)) = Inr b) \<and>
   fst (hasPermission None rp) = Inr False \<and>
   (role u = None \<longrightarrow> fst (hasPermission (Some u) rp) = Inr False) \<and>
   (\<forall>ro. role u = Some ro \<and> permissions ro = None \<longrightarrow>
      fst (hasPermission (Some u) (Some p)) = Inr False) \<and>
   (\<exists>b. fst (canAccessResource (Some u) (Some owner) (Some p)) = Inr b) \<and>
   snd (hasPermission user rp) =
     (case user of None \<Rightarrow> [warn_no_role]
      | Some u \<Rightarrow> (case role u of None \<Rightarrow> [warn_no_role] | Some _ \<Rightarrow> []))"
proof (intro conjI allI impI)
  show "\<exists>b. fst (hasPermission user (Some p)) = Inr b"
    by (rule hasPermission_string_no_error) simp
  show "fst (hasPermission None rp) = Inr False"
    by (subst hasPermission.simps) simp
  show "fst (hasPermission (Some u) rp) = Inr False" if "role u = None"
    using that by (subst hasPermission.simps) simp
  show "fst (hasPermission (Some u) (Some p)) = Inr False"
    if "role u = Some ro \<and> permissions ro = None" for ro
    using that hasPermission_no_permission_list by blast
  have "\<exists>b. fst (hasPermission (Some u) (Some q)) = Inr b" for q
    by (rule hasPermission_string_no_error) simp
  then show "\<exists>b. fst (canAccessResource (Some u) (Some owner) (Some p)) = Inr b"
    by (simp add: canAccessResource_def split: option.splits)
  show "snd (hasPermission user rp) =
     (case user of None \<Rightarrow> [warn_no_role]
      | Some u \<Rightarrow> (case role u of None \<Rightarrow> [warn_no_role] | Some _ \<Rightarrow> []))"
    by (rule hasPermission_warnings)
qed

theorem evaluator_total_on_strings_witness:
  "fst (hasPermission (Some \<lparr>userId = Some ''64a1'', role = None\<rparr>) None) = Inr False \<and>
   fst (hasPermission (Some \<lparr>userId = Some ''64a1'', role = Some \<lparr>permissions = None\<rparr>\<rparr>)
          (Some ''user:read'')) = Inr False"
  using evaluator_total_on_strings [of _ _ None "\<lparr>userId = Some ''64a1'', role = None\<rparr>"]
    evaluator_total_on_strings [of _ "''user:read''" _
      "\<lparr>userId = Some ''64a1'', role = Some \<lparr>permissions = None\<rparr>\<rparr>"]
  by simp

section \<open>Properties of the credential issuer and the session lifecycle\<close>

lemma audit_enum_facts:
  "array_includes auditActions ''FAILED_LOGIN''"
  "array_includes auditActions ''LOGIN''"
  "array_includes auditActions ''RESET_PASSWORD''"
  "array_includes auditActions ''CHANGE_PASSWORD''"
  "array_includes auditActions ''UPDATE_USER''"
  "array_includes auditResources ''auth''"
  "array_includes auditResources ''users''"
  by (simp_all add: array_includes_def auditActions_def auditResources_def)

lemma verifyPasswordResetToken_type_mismatch:
  "jwt_verify tok (JWT_ACCESS_SECRET env) now = Some d \<Longrightarrow> claim_type d \<noteq> Some ''password-reset'' \<Longrightarrow>
   verifyPasswordResetToken env tok now = Inl InvalidPasswordResetToken"
  by (simp add: verifyPasswordResetToken_def)

lemma access_token_rejected_as_reset:
  "generateAccessToken env user populated now = Inr tok \<Longrightarrow>
   verifyPasswordResetToken env tok now' = Inl InvalidPasswordResetToken"
  by (auto simp: generateAccessToken_def verifyPasswordResetToken_def jwt_sign_def
      split: option.splits if_splits)

lemma refresh_token_rejected_as_reset:
  "verifyPasswordResetToken env (generateRefreshToken env user now) now' = Inl InvalidPasswordResetToken"
  by (auto simp: generateRefreshToken_def verifyPasswordResetToken_def jwt_sign_def
      split: option.splits if_splits)

text \<open>
  Claim C3. \<^verbatim>\<open>verifyPasswordResetToken\<close> refuses every token whose type tag is not
  \<^verbatim>\<open>password-reset\<close>, so access and refresh tokens are never taken for reset tokens
  (\<open>verifyPasswordResetToken_type_mismatch\<close>, \<open>access_token_rejected_as_reset\<close>,
  \<open>refresh_token_rejected_as_reset\<close>). The converse does not hold: a reset token is signed
  with the access secret and \<^verbatim>\<open>verifyAccessToken\<close> checks no tag, so it accepts every
  reset token the issuer mints, until that token expires.
\<close>

theorem reset_token_accepted_as_access_token:
  "verifyAccessToken env (generatePasswordResetToken env user now) now =
     Inr \<lparr>claim_userId = user_id user, claim_email = None, claim_roleId = None,
           claim_permissions = None, claim_type = Some ''password-reset'',
           claim_iat = now div 1000, claim_exp = now div 1000 + 60 * 60\<rparr>"
  by (simp add: verifyAccessToken_def generatePasswordResetToken_def jwt_sign_def)

lemma update_first_distinct:
  "distinct (map f xs) \<Longrightarrow> v \<in> set xs \<Longrightarrow>
   update_first (\<lambda>x. f x = f v) g xs = map (\<lambda>x. if f x = f v then g x else x) xs"
proof (induction xs)
  case Nil
  then show ?case by simp
next
  case (Cons x xs)
  show ?case
  proof (cases "f x = f v")
    case True
    with Cons.prems have "\<forall>y \<in> set xs. f y \<noteq> f v"
      by (metis distinct.simps(2) image_eqI list.simps(9) set_map)
    then have "map (\<lambda>x. if f x = f v then g x else x) xs = xs"
      by (simp add: map_idI)
    with True show ?thesis by simp
  next
    case False
    with Cons show ?thesis by auto
  qed
qed

lemma jwt_verify_userId:
  "jwt_verify tok secret now = Some d \<Longrightarrow> jwt_verify tok secret now' = Some d' \<Longrightarrow>
   claim_userId d' = claim_userId d"
  by (cases tok) (auto split: if_splits)

lemma verifyPasswordResetToken_userId:
  "verifyPasswordResetToken env tok now = Inr d \<Longrightarrow> verifyPasswordResetToken env tok now' = Inr d' \<Longrightarrow>
   claim_userId d' = claim_userId d"
  by (auto simp: verifyPasswordResetToken_def split: option.splits if_splits
      dest: jwt_verify_userId)

lemma resetPassword_failure_keeps_store:
  "resetPassword env db tok pw req now = (Inl e, db') \<Longrightarrow> db' = db"
  by (auto simp: resetPassword_def Let_def split: sum.splits option.splits if_splits)

lemma resetPassword_success:
  assumes "resetPassword env db tok pw req now = (Inr msg, db')"
  obtains d user where "verifyPasswordResetToken env tok now = Inr d"
    and "findUserForReset db (claim_userId d) tok now = Some user"
    and "users db' = update_first (\<lambda>x. user_id x = user_id user)
           (\<lambda>x. user\<lparr>password := Bcrypt pw, resetPasswordToken := None, resetPasswordExpires := None\<rparr>)
           (users db)"
  using assms
  by (auto simp: resetPassword_def Let_def save_user_def logUserAction_def log_def
      split: sum.splits option.splits if_splits)

lemma findUserForReset_Some:
  "findUserForReset db uid tok now = Some user \<Longrightarrow>
   user \<in> set (users db) \<and> user_id user = uid \<and> resetPasswordToken user = Some tok \<and>
   (\<exists>e. resetPasswordExpires user = Some e \<and> now < e)"
  unfolding findUserForReset_def
  by (auto simp: find_Some_iff split: option.splits)

text \<open>
  Claim C4. In a store whose account ids are distinct, a successful \<^verbatim>\<open>resetPassword\<close>
  means that the token verified, that the account it names stored exactly this token and
  that the stored expiry lies in the future; the account then holds the hash of the new
  password and no reset fields, and every later presentation of the same token fails and
  leaves the store as it is.
\<close>

theorem resetPassword_single_use:
  assumes "distinct (map user_id (users db))"
    and "resetPassword env db tok newPassword req now = (Inr msg, db')"
  shows "\<exists>d user. verifyPasswordResetToken env tok now = Inr d
           \<and> user \<in> set (users db) \<and> user_id user = claim_userId d
           \<and> resetPasswordToken user = Some tok
           \<and> (\<exists>e. resetPasswordExpires user = Some e \<and> now < e)
           \<and> users db' =
               map (\<lambda>u. if user_id u = user_id user
                         then user\<lparr>password := Bcrypt newPassword, resetPasswordToken := None,
                                   resetPasswordExpires := None\<rparr>
                         else u) (users db)
           \<and> (\<forall>pw2 req2 now2. \<exists>e. resetPassword env db' tok pw2 req2 now2 = (Inl e, db'))"
proof -
  from assms(2) obtain d user where d: "verifyPasswordResetToken env tok now = Inr d"
    and f: "findUserForReset db (claim_userId d) tok now = Some user"
    and u: "users db' = update_first (\<lambda>x. user_id x = user_id user)
           (\<lambda>x. user\<lparr>password := Bcrypt newPassword, resetPasswordToken := None,
                     resetPasswordExpires := None\<rparr>) (users db)"
    by (rule resetPassword_success)
  let ?user1 = "user\<lparr>password := Bcrypt newPassword, resetPasswordToken := None,
                     resetPasswordExpires := None\<rparr>"
  from findUserForReset_Some [OF f]
  have m: "user \<in> set (users db)" "user_id user = claim_userId d"
    "resetPasswordToken user = Some tok" "\<exists>e. resetPasswordExpires user = Some e \<and> now < e"
    by blast+
  have u': "users db' = map (\<lambda>u. if user_id u = user_id user then ?user1 else u) (users db)"
    using u update_first_distinct [OF assms(1) m(1), of "\<lambda>x. ?user1"] by simp
  have none: "findUserForReset db' (claim_userId d) tok now2 = None" for now2
    unfolding findUserForReset_def find_None_iff u' using m(2) by auto
  have second: "\<exists>e. resetPassword env db' tok pw2 req2 now2 = (Inl e, db')" for pw2 req2 now2
  proof (cases "verifyPasswordResetToken env tok now2")
    case (Inl e)
    then show ?thesis by (simp add: resetPassword_def)
  next
    case (Inr d2)
    then have "claim_userId d2 = claim_userId d"
      using d verifyPasswordResetToken_userId by blast
    then show ?thesis using Inr none by (simp add: resetPassword_def)
  qed
  show ?thesis
    using d m u' second by blast
qed

lemmas sample_defs = sample_env_def sample_request_def alice_def bob_def super_admin_role_def
  user_role_doc_def sample_db_def

lemma sample_email_filters:
  "toLowerCase (trim ''alice@example.com'') = ''alice@example.com''"
  "toLowerCase (trim ''bob@example.com'') = ''bob@example.com''"
  "toLowerCase (trim ''nobody@example.com'') = ''nobody@example.com''"
  by (simp_all add: toLowerCase_def toLowerCase_char_def trim_def is_space_def)

lemma pending_db_users:
  "users pending_db =
     [alice\<lparr>resetPasswordToken := Some pending_token, resetPasswordExpires := Some 3601000\<rparr>, bob]"
  by (simp add: pending_db_def pending_token_def forgotPassword_def findUserByEmail_def
      sample_email_filters save_user_def logUserAction_def log_def Let_def sample_db_def
      alice_def bob_def)

lemma pending_reset_succeeds:
  "fst (resetPassword sample_env pending_db pending_token ''new password'' sample_request 2000)
     = Inr reset_message"
  by (simp add: resetPassword_def verifyPasswordResetToken_def findUserForReset_def
      pending_db_users pending_token_def generatePasswordResetToken_def jwt_sign_def
      sample_env_def alice_def bob_def Let_def)

theorem resetPassword_single_use_witness:
  "distinct (map user_id (users pending_db)) \<and>
   fst (resetPassword sample_env pending_db pending_token ''new password'' sample_request 2000)
     = Inr reset_message \<and>
   (\<exists>e. resetPassword sample_env
          (snd (resetPassword sample_env pending_db pending_token ''new password'' sample_request 2000))
          pending_token ''another password'' sample_request 3000
        = (Inl e, snd (resetPassword sample_env pending_db pending_token ''new password''
                         sample_request 2000)))"
proof -
  have d: "distinct (map user_id (users pending_db))"
    by (simp add: pending_db_users alice_def bob_def)
  have s: "resetPassword sample_env pending_db pending_token ''new password'' sample_request 2000
             = (Inr reset_message,
                snd (resetPassword sample_env pending_db pending_token ''new password''
                       sample_request 2000))"
    using pending_reset_succeeds by (simp add: prod_eq_iff)
  from resetPassword_single_use [OF d s] d pending_reset_succeeds show ?thesis
    by blast
qed




lemma forgotPassword_message:
  "message (fst (forgotPassword env db e req now)) = forgot_message"
  by (simp add: forgotPassword_def Let_def split: option.splits)

text \<open>
  Claim C9. The message of \<^verbatim>\<open>forgotPassword\<close> is the same in every run
  (\<open>forgotPassword_message\<close>), but the response is not: for an email that has an account
  its \<^verbatim>\<open>data\<close> field carries the reset token, for an unknown email it is \<^verbatim>\<open>null\<close>.
\<close>

theorem forgotPassword_reveals_account:
  "res_message (fst (forgotPassword_controller sample_env sample_db ''alice@example.com''
                       sample_request 1000))
     = res_message (fst (forgotPassword_controller sample_env sample_db ''nobody@example.com''
                           sample_request 1000)) \<and>
   res_data (fst (forgotPassword_controller sample_env sample_db ''alice@example.com''
                    sample_request 1000))
     = Some (Signed ''access-secret''
              \<lparr>claim_userId = ''64a1'', claim_email = None, claim_roleId = None,
                 claim_permissions = None, claim_type = Some ''password-reset''\<rparr> 1 3601) \<and>
   res_data (fst (forgotPassword_controller sample_env sample_db ''nobody@example.com''
                    sample_request 1000))
     = None"
  by (simp add: forgotPassword_controller_def forgotPassword_def findUserByEmail_def
      sample_email_filters
      generatePasswordResetToken_def jwt_sign_def Let_def sample_defs)

theorem forgotPassword_reveals_account_witness:
  "res_data (fst (forgotPassword_controller sample_env sample_db ''alice@example.com''
                    sample_request 1000))
     \<noteq> res_data (fst (forgotPassword_controller sample_env sample_db ''nobody@example.com''
                         sample_request 1000))"
  using forgotPassword_reveals_account by simp

section \<open>Properties of role management\<close>










section \<open>Properties of the audit interceptor\<close>

text \<open>
  Claim C5. When the wrapped operation does not finish with a status from 200 to 299, the
  interceptor changes nothing: the outcome and the store are those of the operation. When
  it does, the interceptor hands exactly one record, for its action and resource, to the
  audit log that the finished operation left: the record is appended when the AuditLog
  schema accepts it and dropped otherwise, and nothing else changes.
\<close>

theorem auditAction_success_gated:
  "(\<not> (\<exists>res. fst (next req db) = Some res \<and> 200 \<le> statusCode res \<and> statusCode res < 300) \<longrightarrow>
      auditAction action resource opts next req db = next req db) \<and>
   (\<forall>res. fst (next req db) = Some res \<and> 200 \<le> statusCode res \<and> statusCode res < 300 \<longrightarrow>
      fst (auditAction action resource opts next req db) = Some res \<and>
      users (snd (auditAction action resource opts next req db)) = users (snd (next req db)) \<and>
      roles (snd (auditAction action resource opts next req db)) = roles (snd (next req db)) \<and>
      (\<exists>r. log_action r = action \<and> log_resource r = resource
           \<and> auditLogs (snd (auditAction action resource opts next req db))
              = auditLogs (snd (next req db)) @ (if auditLog_valid r then [r] else [])))"
proof (cases "next req db")
  case (Pair out db1)
  show ?thesis
  proof (cases out)
    case None
    with Pair show ?thesis by (simp add: auditAction_def)
  next
    case (Some res)
    show ?thesis
    proof (cases "200 \<le> statusCode res \<and> statusCode res < 300")
      case False
      with Pair Some show ?thesis by (auto simp: auditAction_def)
    next
      case True
      obtain r where r: "auditAction action resource opts next req db = (Some res, log db1 r)"
        and a: "log_action r = action" "log_resource r = resource"
        using Pair Some True by (simp add: auditAction_def Let_def)
      have "auditLogs (log db1 r) = auditLogs db1 @ (if auditLog_valid r then [r] else [])"
        "users (log db1 r) = users db1" "roles (log db1 r) = roles db1"
        by (simp_all add: log_def)
      with r a Pair Some True show ?thesis by auto
    qed
  qed
qed

theorem auditAction_success_gated_witness:
  "auditAction ''DELETE_USER'' ''users'' capture_both failing_operation sample_request sample_db
     = failing_operation sample_request sample_db \<and>
   auditLogs (snd (auditAction ''DELETE_USER'' ''users'' capture_both failing_operation
                     sample_request sample_db)) = [] \<and>
   (\<exists>r. auditLogs (snd (auditAction ''UPDATE_USER'' ''users'' capture_both update_operation
                          sample_request sample_db)) = [r]
        \<and> log_action r = ''UPDATE_USER'' \<and> log_resource r = ''users'')"
proof -
  have f: "\<not> (\<exists>res. fst (failing_operation sample_request sample_db) = Some res
             \<and> 200 \<le> statusCode res \<and> statusCode res < 300)"
    by (simp add: failing_operation_def)
  have u: "fst (update_operation sample_request sample_db)
             = Some \<lparr>statusCode = 200,
                     responseData = JsonText (JObj [(''success'', JBool True),
                                           (''data'', JObj [(''_id'', JStr ''64a1f0c2e4b0a1b2c3d4e5f6''),
                                                            (''password'', JStr ''$2a$12$hash''),
                                                            (''token'', JStr ''tok-123''),
                                                            (''secret'', JStr ''s3cr3t'')])])\<rparr>
           \<and> 200 \<le> statusCode \<lparr>statusCode = 200,
                     responseData = JsonText (JObj [(''success'', JBool True),
                                           (''data'', JObj [(''_id'', JStr ''64a1f0c2e4b0a1b2c3d4e5f6''),
                                                            (''password'', JStr ''$2a$12$hash''),
                                                            (''token'', JStr ''tok-123''),
                                                            (''secret'', JStr ''s3cr3t'')])])\<rparr>
           \<and> statusCode \<lparr>statusCode = 200,
                     responseData = JsonText (JObj [(''success'', JBool True),
                                           (''data'', JObj [(''_id'', JStr ''64a1f0c2e4b0a1b2c3d4e5f6''),
                                                            (''password'', JStr ''$2a$12$hash''),
                                                            (''token'', JStr ''tok-123''),
                                                            (''secret'', JStr ''s3cr3t'')])])\<rparr> < 300"
    by (simp add: update_operation_def)
  have e: "auditLogs (snd (failing_operation sample_request sample_db)) = []"
    "auditLogs (snd (update_operation sample_request sample_db)) = []"
    by (simp_all add: failing_operation_def update_operation_def sample_db_def)
  from auditAction_success_gated [of failing_operation sample_request sample_db
      "''DELETE_USER''" "''users''" capture_both, THEN conjunct1, rule_format, OF f]
  have 1: "auditAction ''DELETE_USER'' ''users'' capture_both failing_operation sample_request sample_db
     = failing_operation sample_request sample_db" .
  have ne: "auditLogs (snd (auditAction ''UPDATE_USER'' ''users'' capture_both update_operation
                          sample_request sample_db)) \<noteq> []"
    by (simp add: auditAction_def update_operation_def capture_both_def sample_request_def
        sample_db_def log_def auditLog_valid_def audit_enum_facts is_hex_digit_def Let_def
        request_userId_def id_from_response_def field_def extractResourceId_def)
  from auditAction_success_gated [of update_operation sample_request sample_db
      "''UPDATE_USER''" "''users''" capture_both, THEN conjunct2, rule_format, OF u]
  obtain r where r: "log_action r = ''UPDATE_USER''" "log_resource r = ''users''"
    "auditLogs (snd (auditAction ''UPDATE_USER'' ''users'' capture_both update_operation
                       sample_request sample_db))
       = auditLogs (snd (update_operation sample_request sample_db))
           @ (if auditLog_valid r then [r] else [])"
    by blast
  from r(3) ne e(2)
  have "auditLogs (snd (auditAction ''UPDATE_USER'' ''users'' capture_both update_operation
                          sample_request sample_db)) = [r]"
    by (simp split: if_splits)
  with r(1,2)
  have 2: "\<exists>r. auditLogs (snd (auditAction ''UPDATE_USER'' ''users'' capture_both update_operation
                          sample_request sample_db)) = [r]
        \<and> log_action r = ''UPDATE_USER'' \<and> log_resource r = ''users''"
    by blast
  from 1 2 e(1) show ?thesis by simp
qed

lemma map_of_filter_key:
  "map_of (filter (\<lambda>kv. fst kv \<noteq> f) kvs) k = (if k = f then None else map_of kvs k)"
  by (induction kvs) auto

lemma strip_field_same:
  "map_of (strip_field kvs f) f = Some v \<Longrightarrow> \<not> truthy v"
  by (auto simp: strip_field_def map_of_filter_key split: option.splits if_splits)

lemma strip_field_other:
  "map_of (strip_field kvs f) k = Some v \<Longrightarrow> map_of kvs k = Some v"
  by (auto simp: strip_field_def map_of_filter_key split: option.splits if_splits)

lemma sanitizeData_strips:
  assumes "sanitizeData (JObj kvs) = JObj kvs'" and "k \<in> set sensitiveFields"
    and "map_of kvs' k = Some v"
  shows "\<not> truthy v"
proof -
  let ?a = "strip_field kvs ''password''"
  let ?b = "strip_field ?a ''token''"
  let ?c = "strip_field ?b ''secret''"
  from assms(1) have c: "kvs' = ?c"
    by (simp add: sanitizeData_def sensitiveFields_def)
  from assms(2) consider "k = ''password''" | "k = ''token''" | "k = ''secret''"
    by (auto simp: sensitiveFields_def)
  then show ?thesis
  proof cases
    case 1
    from assms(3) have "map_of ?a k = Some v"
      unfolding c by (blast dest: strip_field_other)
    with 1 show ?thesis using strip_field_same by blast
  next
    case 2
    from assms(3) have "map_of ?b k = Some v"
      unfolding c by (blast dest: strip_field_other)
    with 2 show ?thesis using strip_field_same by blast
  next
    case 3
    with assms(3) show ?thesis unfolding c using strip_field_same by blast
  qed
qed

text \<open>
  Claim C7. \<^verbatim>\<open>sanitizeData\<close> removes the truthy \<^verbatim>\<open>password\<close>, \<^verbatim>\<open>token\<close> and \<^verbatim>\<open>secret\<close>
  entries of the before snapshot (\<open>sanitizeData_strips\<close>), but the after snapshot goes
  through \<^verbatim>\<open>extractAfterData\<close> only, which deletes \<^verbatim>\<open>data.password\<close> and nothing else.
  For an authenticated administrator updating the account of the route parameter, the
  record that the AuditLog schema accepts and the store keeps holds, in its after snapshot,
  the \<^verbatim>\<open>token\<close> and \<^verbatim>\<open>secret\<close> entries of \<^verbatim>\<open>data\<close>; and when the response has no
  \<^verbatim>\<open>data\<close> wrapper it holds the \<^verbatim>\<open>password\<close> entry itself.
\<close>

theorem after_snapshot_keeps_secrets:
  "auditLogs (snd (auditAction ''UPDATE_USER'' ''users'' capture_both update_operation
                     admin_request sample_db))
     = [\<lparr>log_userId = ObjectId ''64c3a9d1e4b0a1b2c3d4e5f7'', log_action = ''UPDATE_USER'',
          log_resource = ''users'',
          log_resourceId = IdValue (JStr ''64a1f0c2e4b0a1b2c3d4e5f6''),
          log_before = JObj [(''firstName'', JStr ''Al'')],
          log_after = JObj [(''_id'', JStr ''64a1f0c2e4b0a1b2c3d4e5f6''),
                            (''token'', JStr ''tok-123''), (''secret'', JStr ''s3cr3t'')],
          log_ipAddress = Some ''10.0.0.7'', log_userAgent = Some ''curl/8.0''\<rparr>] \<and>
   auditLogs (snd (auditAction ''UPDATE_USER'' ''users'' capture_both unwrapped_operation
                     admin_request sample_db))
     = [\<lparr>log_userId = ObjectId ''64c3a9d1e4b0a1b2c3d4e5f7'', log_action = ''UPDATE_USER'',
          log_resource = ''users'',
          log_resourceId = IdValue (JStr ''64a1f0c2e4b0a1b2c3d4e5f6''),
          log_before = JObj [(''firstName'', JStr ''Al'')],
          log_after = JObj [(''_id'', JStr ''64a1f0c2e4b0a1b2c3d4e5f6''),
                            (''password'', JStr ''$2a$12$hash'')],
          log_ipAddress = Some ''10.0.0.7'', log_userAgent = Some ''curl/8.0''\<rparr>]"
  by (simp add: auditAction_def update_operation_def unwrapped_operation_def capture_both_def
      admin_request_def sample_db_def log_def auditLog_valid_def audit_enum_facts
      is_hex_digit_def Let_def request_userId_def
      id_from_response_def field_def extractResourceId_def extractAfterData_def
      sanitizeData_def sensitiveFields_def strip_field_def ipAddress_of_def)

theorem after_snapshot_keeps_secrets_witness:
  "map log_after
     (auditLogs (snd (auditAction ''UPDATE_USER'' ''users'' capture_both update_operation
                     admin_request sample_db)))
     = [JObj [(''_id'', JStr ''64a1f0c2e4b0a1b2c3d4e5f6''), (''token'', JStr ''tok-123''),
              (''secret'', JStr ''s3cr3t'')]] \<and>
   map log_after
     (auditLogs (snd (auditAction ''UPDATE_USER'' ''users'' capture_both unwrapped_operation
                     admin_request sample_db)))
     = [JObj [(''_id'', JStr ''64a1f0c2e4b0a1b2c3d4e5f6''), (''password'', JStr ''$2a$12$hash'')]]"
  using after_snapshot_keeps_secrets by simp

end
